theory Spec2Isabelle
  imports Main
begin

section \<open>JavaScript values and the clock\<close>

text \<open>
  The two classes verified here are \<^verbatim>\<open>RateLimiter\<close> (Challenge 3, and the identical
  "custom implementation" of Q12) and \<^verbatim>\<open>SimpleCache\<close> (Challenge 4, and the identical
  Problem 5). Both keep their state in a JavaScript \<^verbatim>\<open>Map\<close> and read the time with
  \<^verbatim>\<open>Date.now()\<close>.

  A \<^verbatim>\<open>Map\<close> accepts every JavaScript value as a key and as a payload; the fragment of
  values below is enough for keys, payloads and the results of the methods. On this
  fragment the key comparison of \<^verbatim>\<open>Map\<close> (SameValueZero) is equality. Times, durations
  and the request limit are JavaScript numbers holding integers; they are modelled as
  \<^typ>\<open>int\<close>. The reading of \<^verbatim>\<open>Date.now()\<close> is a parameter \<open>now\<close> of every operation
  that reads the clock. A method mutates \<^verbatim>\<open>this\<close>; the model returns the object after
  the call next to the method's result.
\<close>

datatype jsval = JUndefined | JNull | JBool bool | JNum int | JStr string

section \<open>RateLimiter\<close>

text \<open>
  \<^verbatim>\<open>
  class RateLimiter {
    constructor(maxRequests, windowMs) {
      this.maxRequests = maxRequests;
      this.windowMs = windowMs;
      this.requests = new Map();
    }
    isAllowed(identifier) {
      const now = Date.now();
      const userRequests = this.requests.get(identifier) || [];
      const recentRequests = userRequests.filter(
        time => now - time < this.windowMs
      );
      if (recentRequests.length >= this.maxRequests) {
        return false;
      }
      recentRequests.push(now);
      this.requests.set(identifier, recentRequests);
      return true;
    }
  }
  \<close>
\<close>

record RateLimiter =
  maxRequests :: int
  windowMs :: int
  requests :: "jsval \<rightharpoonup> int list"

definition RateLimiter_constructor :: "int \<Rightarrow> int \<Rightarrow> RateLimiter" where
  "RateLimiter_constructor m w = \<lparr>maxRequests = m, windowMs = w, requests = Map.empty\<rparr>"

text \<open>
  \<^verbatim>\<open>this.requests.get(identifier) || []\<close>: an array is truthy, also the empty one, so
  the right operand is taken exactly when the identifier has no entry. \<^verbatim>\<open>filter\<close> makes
  a new array, so the \<^verbatim>\<open>push\<close> does not touch the stored one, and a rejected call
  returns before \<^verbatim>\<open>this.requests.set\<close>.
\<close>

definition userRequests :: "RateLimiter \<Rightarrow> jsval \<Rightarrow> int list" where
  "userRequests rl identifier = (case requests rl identifier of None \<Rightarrow> [] | Some ts \<Rightarrow> ts)"

definition recentRequests :: "RateLimiter \<Rightarrow> jsval \<Rightarrow> int \<Rightarrow> int list" where
  "recentRequests rl identifier now =
     filter (\<lambda>time. now - time < windowMs rl) (userRequests rl identifier)"

definition isAllowed :: "RateLimiter \<Rightarrow> jsval \<Rightarrow> int \<Rightarrow> bool \<times> RateLimiter" where
  "isAllowed rl identifier now =
     (if maxRequests rl \<le> int (length (recentRequests rl identifier now)) then (False, rl)
      else (True, rl\<lparr>requests :=
                      (requests rl)(identifier \<mapsto> recentRequests rl identifier now @ [now])\<rparr>))"

text \<open>
  A caller's sequence of calls: each call names its identifier and the clock reading at
  the call. The results are collected in call order, next to the limiter after the last
  call.
\<close>

fun isAllowed_calls :: "RateLimiter \<Rightarrow> (jsval \<times> int) list \<Rightarrow> bool list \<times> RateLimiter" where
  "isAllowed_calls rl [] = ([], rl)"
| "isAllowed_calls rl ((identifier, now) # cs) =
     (case isAllowed rl identifier now of
        (r, rl') \<Rightarrow> (case isAllowed_calls rl' cs of (rs, rl'') \<Rightarrow> (r # rs, rl'')))"

text \<open>
  The number of calls for \<open>ident\<close> that returned true and whose time lies in the
  half-open interval from \<open>a\<close> (included) to \<open>b\<close> (excluded).
\<close>

definition admitted_within ::
    "jsval \<Rightarrow> int \<Rightarrow> int \<Rightarrow> (jsval \<times> int) list \<Rightarrow> bool list \<Rightarrow> nat" where
  "admitted_within ident a b cs rs =
     length (filter (\<lambda>((i, t), r). r \<and> i = ident \<and> a \<le> t \<and> t < b) (zip cs rs))"

section \<open>SimpleCache\<close>

text \<open>
  \<^verbatim>\<open>
  class SimpleCache {
    constructor(ttl = 60000) {
      this.cache = new Map();
      this.ttl = ttl;
    }
    set(key, value) {
      this.cache.set(key, {
        value,
        expiresAt: Date.now() + this.ttl
      });
    }
    get(key) {
      const item = this.cache.get(key);
      if (!item) return null;
      if (Date.now() > item.expiresAt) {
        this.cache.delete(key);
        return null;
      }
      return item.value;
    }
    delete(key) {
      this.cache.delete(key);
    }
    clear() {
      this.cache.clear();
    }
  }
  \<close>
  The field \<^verbatim>\<open>value\<close> of a stored item is named \<open>item_value\<close> here, and the methods
  carry the prefix \<open>cache_\<close>.
\<close>

record item =
  item_value :: jsval
  expiresAt :: int

record SimpleCache =
  cache :: "jsval \<rightharpoonup> item"
  ttl :: int

text \<open>The default parameter \<^verbatim>\<open>ttl = 60000\<close> applies when the argument is left out.\<close>

definition SimpleCache_constructor :: "int option \<Rightarrow> SimpleCache" where
  "SimpleCache_constructor t =
     \<lparr>cache = Map.empty, ttl = (case t of None \<Rightarrow> 60000 | Some x \<Rightarrow> x)\<rparr>"

text \<open>A method body with no \<^verbatim>\<open>return\<close> statement returns \<^verbatim>\<open>undefined\<close>.\<close>

definition cache_set :: "SimpleCache \<Rightarrow> jsval \<Rightarrow> jsval \<Rightarrow> int \<Rightarrow> jsval \<times> SimpleCache" where
  "cache_set c key v now =
     (JUndefined,
      c\<lparr>cache := (cache c)(key \<mapsto> \<lparr>item_value = v, expiresAt = now + ttl c\<rparr>)\<rparr>)"

text \<open>
  A call passes a list of arguments. \<^verbatim>\<open>set(key, value)\<close> declares two parameters: a
  missing argument is \<^verbatim>\<open>undefined\<close>, and arguments after the second are bound to no
  parameter.
\<close>

fun cache_set_call :: "SimpleCache \<Rightarrow> jsval list \<Rightarrow> int \<Rightarrow> jsval \<times> SimpleCache" where
  "cache_set_call c [] now = cache_set c JUndefined JUndefined now"
| "cache_set_call c [key] now = cache_set c key JUndefined now"
| "cache_set_call c (key # v # extra) now = cache_set c key v now"

text \<open>
  \<^verbatim>\<open>if (!item) return null\<close>: the map holds only the objects that \<^verbatim>\<open>set\<close> stores,
  and an object is truthy, so the test is true exactly when the key has no entry.
\<close>

definition cache_get :: "SimpleCache \<Rightarrow> jsval \<Rightarrow> int \<Rightarrow> jsval \<times> SimpleCache" where
  "cache_get c key now =
     (case cache c key of
        None \<Rightarrow> (JNull, c)
      | Some it \<Rightarrow>
          if now > expiresAt it then (JNull, c\<lparr>cache := (cache c)(key := None)\<rparr>)
          else (item_value it, c))"

text \<open>
  \<^verbatim>\<open>delete(key) { this.cache.delete(key); }\<close>: the boolean that \<^verbatim>\<open>Map.delete\<close>
  returns is dropped, and the method returns \<^verbatim>\<open>undefined\<close>.
\<close>

definition cache_delete :: "SimpleCache \<Rightarrow> jsval \<Rightarrow> jsval \<times> SimpleCache" where
  "cache_delete c key = (JUndefined, c\<lparr>cache := (cache c)(key := None)\<rparr>)"

definition cache_clear :: "SimpleCache \<Rightarrow> jsval \<times> SimpleCache" where
  "cache_clear c = (JUndefined, c\<lparr>cache := Map.empty\<rparr>)"

section \<open>Facts about one call of isAllowed\<close>

lemma isAllowed_config:
  "maxRequests (snd (isAllowed rl i now)) = maxRequests rl"
  "windowMs (snd (isAllowed rl i now)) = windowMs rl"
  by (simp_all add: isAllowed_def)

lemma fst_isAllowed:
  "fst (isAllowed rl i now) \<longleftrightarrow> int (length (recentRequests rl i now)) < maxRequests rl"
  by (auto simp: isAllowed_def)

lemma userRequests_isAllowed:
  "userRequests (snd (isAllowed rl i now)) ident =
     (if i = ident \<and> fst (isAllowed rl i now) then recentRequests rl ident now @ [now]
      else userRequests rl ident)"
  by (simp add: isAllowed_def userRequests_def)

lemma isAllowed_newer_only:
  assumes "0 < windowMs rl" and "fst (isAllowed rl i now)"
  shows "requests (snd (isAllowed rl i now)) i = Some (recentRequests rl i now @ [now])
         \<and> (\<forall>t \<in> set (recentRequests rl i now @ [now]). now - windowMs rl < t)"
  using assms by (auto simp: isAllowed_def recentRequests_def split: if_splits)

lemma isAllowed_nonpositive_limit:
  "maxRequests rl \<le> 0 \<Longrightarrow> isAllowed rl i now = (False, rl)"
  by (simp add: isAllowed_def)

lemma recent_keeps_window:
  assumes "now < a + windowMs rl"
  shows "filter (\<lambda>t. a \<le> t) (recentRequests rl ident now)
           = filter (\<lambda>t. a \<le> t) (userRequests rl ident)"
  unfolding recentRequests_def filter_filter
  using assms by (intro filter_cong) auto

section \<open>Facts about sequences of calls\<close>

lemma fst_isAllowed_calls_Cons:
  "fst (isAllowed_calls rl ((i, now) # cs)) =
     fst (isAllowed rl i now) # fst (isAllowed_calls (snd (isAllowed rl i now)) cs)"
  by (simp split: prod.splits)

lemma isAllowed_calls_nonpositive_limit:
  "maxRequests rl \<le> 0 \<Longrightarrow> isAllowed_calls rl cs = (replicate (length cs) False, rl)"
  by (induction cs) (auto simp: isAllowed_nonpositive_limit)

lemma admitted_within_Nil: "admitted_within ident a b [] rs = 0"
  by (simp add: admitted_within_def)

lemma admitted_within_Cons:
  "admitted_within ident a b ((i, t) # cs) (r # rs) =
     (if r \<and> i = ident \<and> a \<le> t \<and> t < b then 1 else 0) + admitted_within ident a b cs rs"
  by (simp add: admitted_within_def)

lemma admitted_within_late:
  "\<forall>t \<in> set (map snd cs). b \<le> t \<Longrightarrow> admitted_within ident a b cs rs = 0"
  by (auto simp: admitted_within_def filter_empty_conv dest!: set_zip_leftD)

text \<open>
  The invariant behind the sliding-window bound. \<open>K\<close> counts the stored timestamps of
  \<open>ident\<close> that are not older than \<open>a\<close>. A call before the end of the interval keeps
  all of them (they are less than \<open>windowMs\<close> old), so an admitted call finds at least
  \<open>K\<close> recent requests, and \<open>K\<close> is below the limit; an admitted call inside the
  interval adds one to \<open>K\<close>. Once a call comes at or after the end of the interval,
  every later one does too, since the times do not decrease.
\<close>

lemma sliding_window_aux:
  assumes "sorted (map snd cs)"
  shows "int (length (filter (\<lambda>t. a \<le> t) (userRequests rl ident)))
           + int (admitted_within ident a (a + windowMs rl) cs (fst (isAllowed_calls rl cs)))
         \<le> max (int (length (filter (\<lambda>t. a \<le> t) (userRequests rl ident)))) (maxRequests rl)"
  using assms
proof (induction cs arbitrary: rl)
  case Nil
  then show ?case by (simp add: admitted_within_Nil)
next
  case (Cons c cs)
  obtain i now where c: "c = (i, now)" by (cases c)
  let ?rl = "snd (isAllowed rl i now)"
  let ?K = "\<lambda>r. int (length (filter (\<lambda>t. a \<le> t) (userRequests r ident)))"
  let ?rest = "int (admitted_within ident a (a + windowMs rl) cs (fst (isAllowed_calls ?rl cs)))"
  have sorted_cs: "sorted (map snd cs)" and later: "\<forall>t \<in> set (map snd cs). now \<le> t"
    using Cons.prems by (auto simp: c)
  have cnt_eq: "admitted_within ident a (a + windowMs rl) (c # cs) (fst (isAllowed_calls rl (c # cs)))
                  = (if fst (isAllowed rl i now) \<and> i = ident \<and> a \<le> now \<and> now < a + windowMs rl
                     then 1 else 0)
                    + admitted_within ident a (a + windowMs rl) cs (fst (isAllowed_calls ?rl cs))"
    unfolding c fst_isAllowed_calls_Cons admitted_within_Cons ..
  have IH: "?K ?rl + ?rest \<le> max (?K ?rl) (maxRequests rl)"
    using Cons.IH [OF sorted_cs, of ?rl] by (simp add: isAllowed_config)
  show ?case
  proof (cases "a + windowMs rl \<le> now")
    case True
    then have "\<forall>t \<in> set (map snd (c # cs)). a + windowMs rl \<le> t"
      using later by (auto simp: c)
    then have "admitted_within ident a (a + windowMs rl) (c # cs) (fst (isAllowed_calls rl (c # cs))) = 0"
      by (rule admitted_within_late)
    then show ?thesis by simp
  next
    case False
    then have inside: "now < a + windowMs rl" by simp
    have keep: "filter (\<lambda>t. a \<le> t) (recentRequests rl ident now)
                  = filter (\<lambda>t. a \<le> t) (userRequests rl ident)"
      using inside by (rule recent_keeps_window)
    show ?thesis
    proof (cases "i = ident \<and> fst (isAllowed rl i now)")
      case False
      then have "userRequests ?rl ident = userRequests rl ident"
        by (auto simp: userRequests_isAllowed)
      then have "?K ?rl = ?K rl" by simp
      moreover have "int (admitted_within ident a (a + windowMs rl) (c # cs)
                            (fst (isAllowed_calls rl (c # cs)))) = ?rest"
        using False by (auto simp: cnt_eq)
      ultimately show ?thesis using IH by simp
    next
      case True
      then have adm: "int (length (recentRequests rl ident now)) < maxRequests rl"
        by (auto simp: fst_isAllowed)
      have "length (filter (\<lambda>t. a \<le> t) (recentRequests rl ident now))
              \<le> length (recentRequests rl ident now)"
        by (rule length_filter_le)
      then have Klt: "?K rl < maxRequests rl"
        using adm keep by simp
      have Knew: "?K ?rl = ?K rl + (if a \<le> now then 1 else 0)"
        using True keep by (auto simp: userRequests_isAllowed)
      have cnt: "int (admitted_within ident a (a + windowMs rl) (c # cs)
                        (fst (isAllowed_calls rl (c # cs))))
                  = (if a \<le> now then 1 else 0) + ?rest"
        using True inside by (auto simp: cnt_eq)
      show ?thesis using IH Klt Knew cnt by (simp split: if_splits)
    qed
  qed
qed

text \<open>
  The stored list of an identifier never grows beyond the limit: the constructor starts
  with no list, and a call is admitted only while fewer than \<open>maxRequests\<close> recent
  timestamps are stored. So in a state reached by calls, a stored timestamp that has
  expired makes room for the next call.
\<close>

lemma snd_isAllowed_calls_Cons:
  "snd (isAllowed_calls rl ((i, now) # cs)) = snd (isAllowed_calls (snd (isAllowed rl i now)) cs)"
  by (simp split: prod.splits)

lemma isAllowed_calls_config:
  "maxRequests (snd (isAllowed_calls rl cs)) = maxRequests rl
   \<and> windowMs (snd (isAllowed_calls rl cs)) = windowMs rl"
proof (induction cs arbitrary: rl)
  case Nil
  show ?case by simp
next
  case (Cons c cs)
  obtain i now where c: "c = (i, now)" by (cases c)
  show ?case
    unfolding c snd_isAllowed_calls_Cons
    using Cons.IH [of "snd (isAllowed rl i now)"] by (simp add: isAllowed_config)
qed

lemma isAllowed_length_inv:
  assumes "int (length (userRequests rl j)) \<le> max 0 (maxRequests rl)"
  shows "int (length (userRequests (snd (isAllowed rl i now)) j)) \<le> max 0 (maxRequests rl)"
proof (cases "i = j \<and> fst (isAllowed rl i now)")
  case True
  then have "int (length (recentRequests rl j now)) < maxRequests rl"
    by (auto simp: fst_isAllowed)
  moreover have "userRequests (snd (isAllowed rl i now)) j = recentRequests rl j now @ [now]"
    using True by (auto simp: userRequests_isAllowed)
  ultimately show ?thesis by simp
next
  case False
  then have "userRequests (snd (isAllowed rl i now)) j = userRequests rl j"
    by (auto simp: userRequests_isAllowed)
  then show ?thesis using assms by simp
qed

lemma isAllowed_calls_length_inv:
  assumes "int (length (userRequests rl j)) \<le> max 0 (maxRequests rl)"
  shows "int (length (userRequests (snd (isAllowed_calls rl cs)) j)) \<le> max 0 (maxRequests rl)"
  using assms
proof (induction cs arbitrary: rl)
  case Nil
  then show ?case by simp
next
  case (Cons c cs)
  obtain i now where c: "c = (i, now)" by (cases c)
  have "int (length (userRequests (snd (isAllowed rl i now)) j))
          \<le> max 0 (maxRequests (snd (isAllowed rl i now)))"
    using isAllowed_length_inv [OF Cons.prems, of i now] by (simp add: isAllowed_config)
  then have "int (length (userRequests (snd (isAllowed_calls (snd (isAllowed rl i now)) cs)) j))
          \<le> max 0 (maxRequests (snd (isAllowed rl i now)))"
    by (rule Cons.IH)
  then show ?case
    unfolding c snd_isAllowed_calls_Cons by (simp add: isAllowed_config)
qed

lemma expired_stored_admits:
  assumes inv: "int (length (userRequests rl i)) \<le> max 0 (maxRequests rl)"
    and t: "t \<in> set (userRequests rl i)" and old: "windowMs rl \<le> now - t"
  shows "isAllowed rl i now
           = (True, rl\<lparr>requests := (requests rl)(i \<mapsto> recentRequests rl i now @ [now])\<rparr>)"
proof -
  have "length (recentRequests rl i now) < length (userRequests rl i)"
    unfolding recentRequests_def
    using t old by (intro length_filter_less [of t]) auto
  moreover have "0 < length (userRequests rl i)"
    using t by (cases "userRequests rl i") auto
  ultimately have "int (length (recentRequests rl i now)) < maxRequests rl"
    using inv by linarith
  then show ?thesis by (simp add: isAllowed_def)
qed


section \<open>The claims about RateLimiter.isAllowed\<close>

text \<open>
  C1 (amended). The limiter keeps, per identifier, the list of the times of the admitted
  calls; the window start is the oldest of them. In every state reached from the
  constructor by calls, the stored list is no longer than the limit. For every identifier
  with such a list, a call at a time \<open>now\<close> with \<open>now - t \<ge> windowMs\<close> for a stored
  timestamp \<open>t\<close> (the window start in particular) returns true and stores the
  timestamps that are less than \<open>windowMs\<close> old followed by \<open>now\<close>; the state is
  the fresh window of the one request at \<open>now\<close> exactly when every stored timestamp
  has expired. The algorithm is a sliding-window log, not a fixed window: of the calls at
  non-decreasing times that fall in a half-open interval of length \<open>windowMs\<close>, at
  most \<open>maxRequests\<close> are admitted, so fewer than \<open>2 * maxRequests\<close>.
\<close>

theorem isAllowed_expired_window_start:
  "(maxRequests (snd (isAllowed_calls (RateLimiter_constructor m w) cs0)) = m
    \<and> windowMs (snd (isAllowed_calls (RateLimiter_constructor m w) cs0)) = w
    \<and> int (length (userRequests (snd (isAllowed_calls (RateLimiter_constructor m w) cs0)) j)) \<le> max 0 m)
   \<and> (int (length (userRequests rl i)) \<le> max 0 (maxRequests rl)
        \<and> t \<in> set (userRequests rl i) \<and> windowMs rl \<le> now - t \<longrightarrow>
        isAllowed rl i now
          = (True, rl\<lparr>requests := (requests rl)
                (i \<mapsto> filter (\<lambda>s. now - s < windowMs rl) (userRequests rl i) @ [now])\<rparr>)
        \<and> (userRequests (snd (isAllowed rl i now)) i = [now]
             \<longleftrightarrow> (\<forall>s \<in> set (userRequests rl i). windowMs rl \<le> now - s)))
   \<and> (sorted (map snd cs) \<and> 0 < maxRequests rl \<longrightarrow>
        int (admitted_within ident a (a + windowMs rl) cs (fst (isAllowed_calls rl cs))) \<le> maxRequests rl
        \<and> int (admitted_within ident a (a + windowMs rl) cs (fst (isAllowed_calls rl cs)))
            < 2 * maxRequests rl)"
proof (intro conjI impI)
  let ?rl0 = "RateLimiter_constructor m w"
  show "maxRequests (snd (isAllowed_calls ?rl0 cs0)) = m"
    and "windowMs (snd (isAllowed_calls ?rl0 cs0)) = w"
    by (simp_all add: isAllowed_calls_config RateLimiter_constructor_def)
  have "int (length (userRequests ?rl0 j)) \<le> max 0 (maxRequests ?rl0)"
    by (simp add: userRequests_def RateLimiter_constructor_def)
  then have "int (length (userRequests (snd (isAllowed_calls ?rl0 cs0)) j)) \<le> max 0 (maxRequests ?rl0)"
    by (rule isAllowed_calls_length_inv)
  then show "int (length (userRequests (snd (isAllowed_calls ?rl0 cs0)) j)) \<le> max 0 m"
    by (simp add: RateLimiter_constructor_def)
next
  assume h: "int (length (userRequests rl i)) \<le> max 0 (maxRequests rl)
        \<and> t \<in> set (userRequests rl i) \<and> windowMs rl \<le> now - t"
  then have adm: "isAllowed rl i now
          = (True, rl\<lparr>requests := (requests rl)(i \<mapsto> recentRequests rl i now @ [now])\<rparr>)"
    by (intro expired_stored_admits [of rl i t now]) auto
  then show "isAllowed rl i now
          = (True, rl\<lparr>requests := (requests rl)
                (i \<mapsto> filter (\<lambda>s. now - s < windowMs rl) (userRequests rl i) @ [now])\<rparr>)"
    by (simp add: recentRequests_def)
  have "userRequests (snd (isAllowed rl i now)) i = recentRequests rl i now @ [now]"
    using adm by (simp add: userRequests_def)
  then show "userRequests (snd (isAllowed rl i now)) i = [now]
             \<longleftrightarrow> (\<forall>s \<in> set (userRequests rl i). windowMs rl \<le> now - s)"
    by (auto simp: recentRequests_def filter_empty_conv)
next
  assume h: "sorted (map snd cs) \<and> 0 < maxRequests rl"
  then have s: "sorted (map snd cs)" by simp
  show b: "int (admitted_within ident a (a + windowMs rl) cs (fst (isAllowed_calls rl cs))) \<le> maxRequests rl"
    using sliding_window_aux [OF s, of a rl ident] h by linarith
  show "int (admitted_within ident a (a + windowMs rl) cs (fst (isAllowed_calls rl cs)))
            < 2 * maxRequests rl"
    using b h by linarith
qed

text \<open>
  The amended statement at a limiter of two requests per 1000 ms after calls at 0 and
  999: the call at 1000 finds the timestamp 0 expired, returns true and stores 999 and
  1000; of four calls between 1000 and 1999 at most two are admitted.
\<close>

theorem isAllowed_expired_window_start_witness:
  "snd (isAllowed_calls (RateLimiter_constructor 2 1000) [(JStr ''x'', 0), (JStr ''x'', 999)])
     = \<lparr>maxRequests = 2, windowMs = 1000, requests = [JStr ''x'' \<mapsto> [0, 999]]\<rparr>
   \<and> int (length (userRequests \<lparr>maxRequests = 2, windowMs = 1000, requests = [JStr ''x'' \<mapsto> [0, 999]]\<rparr>
                     (JStr ''x'')))
       \<le> max 0 (maxRequests \<lparr>maxRequests = 2, windowMs = 1000, requests = [JStr ''x'' \<mapsto> [0, 999]]\<rparr>)
   \<and> 0 \<in> set (userRequests \<lparr>maxRequests = 2, windowMs = 1000, requests = [JStr ''x'' \<mapsto> [0, 999]]\<rparr>
                  (JStr ''x''))
   \<and> windowMs \<lparr>maxRequests = 2, windowMs = 1000, requests = [JStr ''x'' \<mapsto> [0, 999]]\<rparr> \<le> 1000 - 0
   \<and> isAllowed \<lparr>maxRequests = 2, windowMs = 1000, requests = [JStr ''x'' \<mapsto> [0, 999]]\<rparr> (JStr ''x'') 1000
       = (True, \<lparr>maxRequests = 2, windowMs = 1000, requests = [JStr ''x'' \<mapsto> [999, 1000]]\<rparr>)
   \<and> sorted (map snd [(JStr ''x'', 1000 :: int), (JStr ''x'', 1001), (JStr ''x'', 1998), (JStr ''x'', 1999)])
   \<and> 0 < maxRequests \<lparr>maxRequests = 2, windowMs = 1000, requests = [JStr ''x'' \<mapsto> [0, 999]]\<rparr>
   \<and> int (admitted_within (JStr ''x'') 1000
            (1000 + windowMs \<lparr>maxRequests = 2, windowMs = 1000, requests = [JStr ''x'' \<mapsto> [0, 999]]\<rparr>)
            [(JStr ''x'', 1000), (JStr ''x'', 1001), (JStr ''x'', 1998), (JStr ''x'', 1999)]
            (fst (isAllowed_calls \<lparr>maxRequests = 2, windowMs = 1000, requests = [JStr ''x'' \<mapsto> [0, 999]]\<rparr>
               [(JStr ''x'', 1000), (JStr ''x'', 1001), (JStr ''x'', 1998), (JStr ''x'', 1999)])))
       \<le> 2"
proof -
  let ?rl = "\<lparr>maxRequests = 2, windowMs = 1000, requests = [JStr ''x'' \<mapsto> [0, 999]]\<rparr>"
  let ?cs = "[(JStr ''x'', 1000 :: int), (JStr ''x'', 1001), (JStr ''x'', 1998), (JStr ''x'', 1999)]"
  have r: "snd (isAllowed_calls (RateLimiter_constructor 2 1000) [(JStr ''x'', 0), (JStr ''x'', 999)]) = ?rl"
    by (simp add: isAllowed_def recentRequests_def userRequests_def RateLimiter_constructor_def)
  have u: "userRequests ?rl (JStr ''x'') = [0, 999]" by (simp add: userRequests_def)
  have inv: "int (length (userRequests ?rl (JStr ''x''))) \<le> max 0 (maxRequests ?rl)"
    by (simp add: u)
  have t: "0 \<in> set (userRequests ?rl (JStr ''x''))" by (simp add: u)
  have old: "windowMs ?rl \<le> 1000 - 0" by simp
  have s: "sorted (map snd ?cs)" by simp
  have m: "0 < maxRequests ?rl" by simp
  note inst = isAllowed_expired_window_start [of 2 1000 "[(JStr ''x'', 0), (JStr ''x'', 999)]" "JStr ''x''"
      ?rl "JStr ''x''" 0 1000 ?cs "JStr ''x''" 1000]
  have adm: "isAllowed ?rl (JStr ''x'') 1000
          = (True, ?rl\<lparr>requests := (requests ?rl)
                (JStr ''x'' \<mapsto> filter (\<lambda>s. 1000 - s < windowMs ?rl) (userRequests ?rl (JStr ''x'')) @ [1000])\<rparr>)"
    using inst inv t old by blast
  have bound: "int (admitted_within (JStr ''x'') 1000 (1000 + windowMs ?rl) ?cs (fst (isAllowed_calls ?rl ?cs)))
                \<le> maxRequests ?rl"
    using inst s m by blast
  have adm': "isAllowed ?rl (JStr ''x'') 1000
       = (True, \<lparr>maxRequests = 2, windowMs = 1000, requests = [JStr ''x'' \<mapsto> [999, 1000]]\<rparr>)"
    unfolding adm by (simp add: u)
  have bound': "int (admitted_within (JStr ''x'') 1000 (1000 + windowMs ?rl) ?cs (fst (isAllowed_calls ?rl ?cs)))
                \<le> 2"
    using bound by simp
  show ?thesis
    using r inv t old adm' s m bound' by blast
qed

text \<open>
  C1 as stated fails. A limiter of two requests per 1000 ms is called for \<open>x\<close> at 0 and
  at 999; the stored window then starts at 0. The call at 1000 comes with
  \<open>now - windowStart \<ge> windowMs\<close> and returns true, but the state after it is the two
  timestamps 999 and 1000, not one request started at 1000. The call at 1001 is therefore
  rejected, where a fresh fixed window would admit it: no burst of twice the limit passes
  at the boundary.
\<close>

theorem isAllowed_reset_counterexample:
  "requests (snd (isAllowed_calls (RateLimiter_constructor 2 1000) [(JStr ''x'', 0), (JStr ''x'', 999)]))
            (JStr ''x'')
     = Some [0, 999]
   \<and> (1000::int) - 0 \<ge> 1000
   \<and> isAllowed (snd (isAllowed_calls (RateLimiter_constructor 2 1000) [(JStr ''x'', 0), (JStr ''x'', 999)]))
        (JStr ''x'') 1000
     = (True, \<lparr>maxRequests = 2, windowMs = 1000, requests = [JStr ''x'' \<mapsto> [999, 1000]]\<rparr>)
   \<and> [999, 1000] \<noteq> [1000::int]
   \<and> fst (isAllowed_calls (RateLimiter_constructor 2 1000)
            [(JStr ''x'', 0), (JStr ''x'', 999), (JStr ''x'', 1000), (JStr ''x'', 1001)])
     = [True, True, True, False]"
  by (simp add: isAllowed_def recentRequests_def userRequests_def RateLimiter_constructor_def)



text \<open>
  C9. For every identifier, every limiter with \<open>maxRequests \<ge> 0\<close> in any state, and
  every sequence of calls (for any identifiers) at non-decreasing times: of the calls for
  the identifier whose times lie in a half-open interval of length \<open>windowMs\<close>, at most
  \<open>maxRequests\<close> return true. And with a positive window, the list stored by an
  admitted call holds only timestamps newer than \<open>now - windowMs\<close>.
\<close>

theorem isAllowed_sliding_window_bound:
  assumes "sorted (map snd cs)" and "0 \<le> maxRequests rl"
  shows "int (admitted_within ident a (a + windowMs rl) cs (fst (isAllowed_calls rl cs))) \<le> maxRequests rl
       \<and> (0 < windowMs rl \<and> fst (isAllowed rl i now) \<longrightarrow>
           requests (snd (isAllowed rl i now)) i = Some (recentRequests rl i now @ [now])
           \<and> (\<forall>t \<in> set (recentRequests rl i now @ [now]). now - windowMs rl < t))"
proof
  show "int (admitted_within ident a (a + windowMs rl) cs (fst (isAllowed_calls rl cs))) \<le> maxRequests rl"
    using sliding_window_aux [OF assms(1), of a rl ident] assms(2) by linarith
  show "0 < windowMs rl \<and> fst (isAllowed rl i now) \<longrightarrow>
           requests (snd (isAllowed rl i now)) i = Some (recentRequests rl i now @ [now])
           \<and> (\<forall>t \<in> set (recentRequests rl i now @ [now]). now - windowMs rl < t)"
    using isAllowed_newer_only by blast
qed

text \<open>
  C9 at a limiter of two requests per 1000 ms: of the calls for \<open>x\<close> in the interval
  from 500 to 1500, those at 500 and 1000 are admitted and those at 999 and 1400 are
  rejected.
\<close>

theorem isAllowed_sliding_window_bound_witness:
  "sorted (map snd [(JStr ''x'', 0::int), (JStr ''x'', 500), (JStr ''x'', 999), (JStr ''y'', 999),
                    (JStr ''x'', 1000), (JStr ''x'', 1400), (JStr ''x'', 1500)])
   \<and> 0 \<le> maxRequests (RateLimiter_constructor 2 1000)
   \<and> fst (isAllowed_calls (RateLimiter_constructor 2 1000)
        [(JStr ''x'', 0), (JStr ''x'', 500), (JStr ''x'', 999), (JStr ''y'', 999),
         (JStr ''x'', 1000), (JStr ''x'', 1400), (JStr ''x'', 1500)])
       = [True, True, False, True, True, False, True]
   \<and> admitted_within (JStr ''x'') 500 (500 + windowMs (RateLimiter_constructor 2 1000))
        [(JStr ''x'', 0), (JStr ''x'', 500), (JStr ''x'', 999), (JStr ''y'', 999),
         (JStr ''x'', 1000), (JStr ''x'', 1400), (JStr ''x'', 1500)]
        (fst (isAllowed_calls (RateLimiter_constructor 2 1000)
           [(JStr ''x'', 0), (JStr ''x'', 500), (JStr ''x'', 999), (JStr ''y'', 999),
            (JStr ''x'', 1000), (JStr ''x'', 1400), (JStr ''x'', 1500)])) = 2
   \<and> int (admitted_within (JStr ''x'') 500 (500 + windowMs (RateLimiter_constructor 2 1000))
        [(JStr ''x'', 0), (JStr ''x'', 500), (JStr ''x'', 999), (JStr ''y'', 999),
         (JStr ''x'', 1000), (JStr ''x'', 1400), (JStr ''x'', 1500)]
        (fst (isAllowed_calls (RateLimiter_constructor 2 1000)
           [(JStr ''x'', 0), (JStr ''x'', 500), (JStr ''x'', 999), (JStr ''y'', 999),
            (JStr ''x'', 1000), (JStr ''x'', 1400), (JStr ''x'', 1500)])))
       \<le> maxRequests (RateLimiter_constructor 2 1000)"
proof -
  let ?cs = "[(JStr ''x'', 0::int), (JStr ''x'', 500), (JStr ''x'', 999), (JStr ''y'', 999),
              (JStr ''x'', 1000), (JStr ''x'', 1400), (JStr ''x'', 1500)]"
  have s: "sorted (map snd ?cs)" by simp
  have m: "0 \<le> maxRequests (RateLimiter_constructor 2 1000)"
    by (simp add: RateLimiter_constructor_def)
  have r: "fst (isAllowed_calls (RateLimiter_constructor 2 1000) ?cs)
            = [True, True, False, True, True, False, True]"
    by (simp add: isAllowed_def recentRequests_def userRequests_def RateLimiter_constructor_def)
  have n: "admitted_within (JStr ''x'') 500 (500 + windowMs (RateLimiter_constructor 2 1000)) ?cs
             [True, True, False, True, True, False, True] = 2"
    by (simp add: admitted_within_def RateLimiter_constructor_def)
  show ?thesis
    using s m r n isAllowed_sliding_window_bound [OF s m, of "JStr ''x''" 500]
    by simp
qed

section \<open>The claims about SimpleCache\<close>

text \<open>
  C2 (amended). For every key present in the cache, a \<open>get\<close> at a time strictly after
  the entry's \<open>expiresAt\<close> removes the entry and returns \<open>null\<close>; a \<open>get\<close> at a time
  up to and including \<open>expiresAt\<close> returns the stored value and leaves the cache as it
  was. The test of the source is \<^verbatim>\<open>Date.now() > item.expiresAt\<close>.
\<close>

theorem cache_get_expiry:
  assumes "cache c key = Some it"
  shows "(expiresAt it < now \<longrightarrow>
            cache_get c key now = (JNull, c\<lparr>cache := (cache c)(key := None)\<rparr>)
            \<and> cache (snd (cache_get c key now)) key = None)
       \<and> (now \<le> expiresAt it \<longrightarrow> cache_get c key now = (item_value it, c))"
  using assms by (simp add: cache_get_def)

text \<open>An entry that expires at 1000, read at 1001 and at 1000.\<close>

theorem cache_get_expiry_witness:
  "cache_get \<lparr>cache = [JStr ''k'' \<mapsto> \<lparr>item_value = JNum 7, expiresAt = 1000\<rparr>], ttl = 1000\<rparr> (JStr ''k'') 1001
     = (JNull, \<lparr>cache = Map.empty, ttl = 1000\<rparr>)
   \<and> cache_get \<lparr>cache = [JStr ''k'' \<mapsto> \<lparr>item_value = JNum 7, expiresAt = 1000\<rparr>], ttl = 1000\<rparr> (JStr ''k'') 1000
     = (JNum 7, \<lparr>cache = [JStr ''k'' \<mapsto> \<lparr>item_value = JNum 7, expiresAt = 1000\<rparr>], ttl = 1000\<rparr>)"
  using cache_get_expiry [of "\<lparr>cache = [JStr ''k'' \<mapsto> \<lparr>item_value = JNum 7, expiresAt = 1000\<rparr>], ttl = 1000\<rparr>"
      "JStr ''k''" "\<lparr>item_value = JNum 7, expiresAt = 1000\<rparr>" 1001]
    cache_get_expiry [of "\<lparr>cache = [JStr ''k'' \<mapsto> \<lparr>item_value = JNum 7, expiresAt = 1000\<rparr>], ttl = 1000\<rparr>"
      "JStr ''k''" "\<lparr>item_value = JNum 7, expiresAt = 1000\<rparr>" 1000]
  by simp

text \<open>
  C2 as stated fails at \<open>now = expiresAt\<close>: a cache with a TTL of 1000 stores 7 under
  \<open>k\<close> at time 0, so the entry expires at 1000; the \<open>get\<close> at exactly 1000 returns 7
  and the entry stays in the store.
\<close>

theorem cache_get_at_expiresAt_counterexample:
  "cache (snd (cache_set (SimpleCache_constructor (Some 1000)) (JStr ''k'') (JNum 7) 0)) (JStr ''k'')
     = Some \<lparr>item_value = JNum 7, expiresAt = 1000\<rparr>
   \<and> (1000::int) \<ge> 1000
   \<and> fst (cache_get (snd (cache_set (SimpleCache_constructor (Some 1000)) (JStr ''k'') (JNum 7) 0))
                 (JStr ''k'') 1000)
     = JNum 7
   \<and> cache (snd (cache_get (snd (cache_set (SimpleCache_constructor (Some 1000)) (JStr ''k'') (JNum 7) 0))
                        (JStr ''k'') 1000)) (JStr ''k'')
     = Some \<lparr>item_value = JNum 7, expiresAt = 1000\<rparr>"
  by (simp add: cache_set_def cache_get_def SimpleCache_constructor_def)

text \<open>
  C3 (amended). \<open>set\<close> takes a key and a value only; a third argument is bound to no
  parameter and has no effect. For every key, value and further arguments,
  \<open>set(key, value, ...)\<close> returns \<open>undefined\<close> and creates or overwrites the entry of
  the key with the value and \<open>expiresAt = now + ttl\<close>, the TTL the cache was constructed
  with; the other entries and the TTL are unchanged.
\<close>

theorem cache_set_uses_configured_ttl:
  "fst (cache_set_call c (key # v # extra) now) = JUndefined
   \<and> cache (snd (cache_set_call c (key # v # extra) now)) key
       = Some \<lparr>item_value = v, expiresAt = now + ttl c\<rparr>
   \<and> (\<forall>k. k \<noteq> key \<longrightarrow> cache (snd (cache_set_call c (key # v # extra) now)) k = cache c k)
   \<and> ttl (snd (cache_set_call c (key # v # extra) now)) = ttl c"
  by (simp add: cache_set_def)

text \<open>A cache with a TTL of 500 and one entry, and a call with a third argument 100 at time 20.\<close>

theorem cache_set_uses_configured_ttl_witness:
  "cache (snd (cache_set_call \<lparr>cache = [JStr ''a'' \<mapsto> \<lparr>item_value = JNull, expiresAt = 3\<rparr>], ttl = 500\<rparr>
                 [JStr ''k'', JNum 1, JNum 100] 20)) (JStr ''k'')
     = Some \<lparr>item_value = JNum 1, expiresAt = 520\<rparr>
   \<and> cache (snd (cache_set_call \<lparr>cache = [JStr ''a'' \<mapsto> \<lparr>item_value = JNull, expiresAt = 3\<rparr>], ttl = 500\<rparr>
                 [JStr ''k'', JNum 1, JNum 100] 20)) (JStr ''a'')
     = Some \<lparr>item_value = JNull, expiresAt = 3\<rparr>"
  using cache_set_uses_configured_ttl
    [of "\<lparr>cache = [JStr ''a'' \<mapsto> \<lparr>item_value = JNull, expiresAt = 3\<rparr>], ttl = 500\<rparr>"
        "JStr ''k''" "JNum 1" "[JNum 100]" 20]
  by simp

text \<open>
  C3 as stated fails: on a cache with the default TTL of 60000, \<open>set(k, 1, 100)\<close> at
  time 0 stores \<open>expiresAt = 60000\<close>, not \<open>0 + 100\<close>.
\<close>

theorem cache_set_third_argument_counterexample:
  "cache (snd (cache_set_call (SimpleCache_constructor None) [JStr ''k'', JNum 1, JNum 100] 0)) (JStr ''k'')
     = Some \<lparr>item_value = JNum 1, expiresAt = 60000\<rparr>
   \<and> (60000::int) \<noteq> 0 + 100"
  by (simp add: cache_set_def SimpleCache_constructor_def)

text \<open>
  C4 (amended). For every key, \<open>delete(key)\<close> removes the entry if present, leaves the
  other entries as they were, and returns \<open>undefined\<close> in every case, not a boolean. On
  an absent key it changes nothing and raises no error; a second \<open>delete\<close> right after
  the first returns \<open>undefined\<close> again and changes nothing.
\<close>

theorem cache_delete_removes:
  "fst (cache_delete c key) = JUndefined
   \<and> cache (snd (cache_delete c key)) key = None
   \<and> (\<forall>k. k \<noteq> key \<longrightarrow> cache (snd (cache_delete c key)) k = cache c k)
   \<and> (cache c key = None \<longrightarrow> snd (cache_delete c key) = c)
   \<and> cache_delete (snd (cache_delete c key)) key = (JUndefined, snd (cache_delete c key))"
  by (simp add: cache_delete_def fun_upd_idem)

text \<open>Deleting a present key, and deleting from the empty cache.\<close>

theorem cache_delete_removes_witness:
  "cache_delete \<lparr>cache = [JStr ''k'' \<mapsto> \<lparr>item_value = JNum 7, expiresAt = 9\<rparr>], ttl = 5\<rparr> (JStr ''k'')
     = (JUndefined, \<lparr>cache = Map.empty, ttl = 5\<rparr>)
   \<and> cache_delete \<lparr>cache = Map.empty, ttl = 5\<rparr> (JStr ''k'') = (JUndefined, \<lparr>cache = Map.empty, ttl = 5\<rparr>)"
  using cache_delete_removes
      [of "\<lparr>cache = [JStr ''k'' \<mapsto> \<lparr>item_value = JNum 7, expiresAt = 9\<rparr>], ttl = 5\<rparr>" "JStr ''k''"]
    cache_delete_removes [of "\<lparr>cache = Map.empty, ttl = 5\<rparr>" "JStr ''k''"]
  by (simp add: cache_delete_def)

text \<open>
  C4 as stated fails: after \<open>set(k, 7)\<close> the key is present, and the first \<open>delete(k)\<close>
  returns \<open>undefined\<close>, not \<open>true\<close>; the second returns \<open>undefined\<close>, not \<open>false\<close>.
\<close>

theorem cache_delete_result_counterexample:
  "cache (snd (cache_set (SimpleCache_constructor None) (JStr ''k'') (JNum 7) 0)) (JStr ''k'')
     = Some \<lparr>item_value = JNum 7, expiresAt = 60000\<rparr>
   \<and> fst (cache_delete (snd (cache_set (SimpleCache_constructor None) (JStr ''k'') (JNum 7) 0)) (JStr ''k''))
     = JUndefined
   \<and> JUndefined \<noteq> JBool True
   \<and> fst (cache_delete (snd (cache_delete (snd (cache_set (SimpleCache_constructor None) (JStr ''k'') (JNum 7) 0))
                                (JStr ''k''))) (JStr ''k''))
     = JUndefined
   \<and> JUndefined \<noteq> JBool False"
  by (simp add: cache_set_def cache_delete_def SimpleCache_constructor_def)

text \<open>
  C5. For every key \<open>k\<close>, value \<open>v\<close> and \<open>ttl > 0\<close>, on a cache whose configured TTL
  is not negative, \<open>set(k, v, ttl)\<close> followed by \<open>get(k)\<close> at the same clock reading
  returns exactly \<open>v\<close>.
\<close>

theorem cache_set_get_round_trip:
  assumes "0 \<le> ttl c" and "0 < ttlMs"
  shows "fst (cache_get (snd (cache_set_call c [k, v, JNum ttlMs] now)) k now) = v"
  using assms by (simp add: cache_set_def cache_get_def)

text \<open>The round trip on a cache with a TTL of 500, with a third argument 100, at time 42.\<close>

theorem cache_set_get_round_trip_witness:
  "(0::int) \<le> ttl (SimpleCache_constructor (Some 500)) \<and> (0::int) < 100
   \<and> fst (cache_get (snd (cache_set_call (SimpleCache_constructor (Some 500))
                             [JStr ''greeting'', JStr ''hello'', JNum 100] 42))
                 (JStr ''greeting'') 42) = JStr ''hello''"
proof -
  have a: "0 \<le> ttl (SimpleCache_constructor (Some 500))"
    by (simp add: SimpleCache_constructor_def)
  have b: "(0::int) < 100" by simp
  show ?thesis
    using a b cache_set_get_round_trip [OF a b, of "JStr ''greeting''" "JStr ''hello''" 42]
    by simp
qed

text \<open>
  C7 (amended). No key is validated: for every key, the empty string and values that
  are not strings included, \<open>set\<close> stores the entry under that key, \<open>get\<close> reads it
  back (on a cache whose TTL is not negative), and \<open>delete\<close> removes it, after which
  \<open>get\<close> returns \<open>null\<close>. No operation signals an error.
\<close>

theorem cache_accepts_every_key:
  "cache (snd (cache_set c key v now)) key = Some \<lparr>item_value = v, expiresAt = now + ttl c\<rparr>
   \<and> (0 \<le> ttl c \<longrightarrow> fst (cache_get (snd (cache_set c key v now)) key now) = v)
   \<and> cache (snd (cache_delete (snd (cache_set c key v now)) key)) key = None
   \<and> cache (snd (cache_get (snd (cache_delete (snd (cache_set c key v now)) key)) key now)) key = None
   \<and> fst (cache_get (snd (cache_delete (snd (cache_set c key v now)) key)) key now) = JNull"
  by (simp add: cache_set_def cache_get_def cache_delete_def)

text \<open>The amended statement at the empty string and at the key \<open>undefined\<close>.\<close>

theorem cache_accepts_every_key_witness:
  "(0::int) \<le> ttl (SimpleCache_constructor None)
   \<and> fst (cache_get (snd (cache_set (SimpleCache_constructor None) (JStr '''') (JBool True) 3)) (JStr '''') 3)
      = JBool True
   \<and> fst (cache_get (snd (cache_set (SimpleCache_constructor None) JUndefined (JBool True) 3)) JUndefined 3)
      = JBool True"
  using cache_accepts_every_key [of "SimpleCache_constructor None" "JStr ''''" "JBool True" 3]
    cache_accepts_every_key [of "SimpleCache_constructor None" JUndefined "JBool True" 3]
  by (simp add: SimpleCache_constructor_def)

text \<open>
  C7 as stated fails: with the empty string as key, \<open>set\<close> stores the entry, \<open>get\<close>
  returns the stored 7 and \<open>delete\<close> removes the entry; the number 5 is accepted as a
  key as well.
\<close>

theorem cache_empty_key_counterexample:
  "cache (snd (cache_set (SimpleCache_constructor None) (JStr '''') (JNum 7) 0)) (JStr '''')
     = Some \<lparr>item_value = JNum 7, expiresAt = 60000\<rparr>
   \<and> cache_get (snd (cache_set (SimpleCache_constructor None) (JStr '''') (JNum 7) 0)) (JStr '''') 0
     = (JNum 7, snd (cache_set (SimpleCache_constructor None) (JStr '''') (JNum 7) 0))
   \<and> cache (snd (cache_delete (snd (cache_set (SimpleCache_constructor None) (JStr '''') (JNum 7) 0)) (JStr '''')))
        (JStr '''') = None
   \<and> cache (snd (cache_set (SimpleCache_constructor None) (JNum 5) (JNum 7) 0)) (JNum 5)
     = Some \<lparr>item_value = JNum 7, expiresAt = 60000\<rparr>"
  by (simp add: cache_set_def cache_get_def cache_delete_def SimpleCache_constructor_def)

text \<open>
  C10. The result of \<open>get\<close> for a miss is the value \<open>null\<close>. For every key stored with
  the value \<open>null\<close> on a cache whose TTL is not negative, a \<open>get\<close> before expiry
  returns \<open>null\<close> and leaves the cache as it was, exactly as a \<open>get\<close> of an absent key
  does: the two results are equal.
\<close>

theorem cache_get_null_conflation:
  assumes "0 \<le> ttl c" and "now \<le> t" and "t \<le> now + ttl c" and "cache c' k' = None"
  shows "cache_get (snd (cache_set c k JNull now)) k t = (JNull, snd (cache_set c k JNull now))
       \<and> cache (snd (cache_set c k JNull now)) k = Some \<lparr>item_value = JNull, expiresAt = now + ttl c\<rparr>
       \<and> cache_get c' k' t = (JNull, c')
       \<and> fst (cache_get (snd (cache_set c k JNull now)) k t) = fst (cache_get c' k' t)"
  using assms by (simp add: cache_set_def cache_get_def)

text \<open>A \<open>null\<close> stored at time 10 and read at time 20, next to a read of the empty cache.\<close>

theorem cache_get_null_conflation_witness:
  "(0::int) \<le> ttl (SimpleCache_constructor None) \<and> (10::int) \<le> 20
   \<and> 20 \<le> 10 + ttl (SimpleCache_constructor None)
   \<and> cache (SimpleCache_constructor None) (JStr ''k'') = None
   \<and> fst (cache_get (snd (cache_set (SimpleCache_constructor None) (JStr ''k'') JNull 10)) (JStr ''k'') 20) = JNull
   \<and> fst (cache_get (SimpleCache_constructor None) (JStr ''k'') 20) = JNull"
proof -
  have a: "0 \<le> ttl (SimpleCache_constructor None)" by (simp add: SimpleCache_constructor_def)
  have b: "(10::int) \<le> 20" by simp
  have c: "20 \<le> 10 + ttl (SimpleCache_constructor None)" by (simp add: SimpleCache_constructor_def)
  have d: "cache (SimpleCache_constructor None) (JStr ''k'') = None"
    by (simp add: SimpleCache_constructor_def)
  show ?thesis
    using a b c d cache_get_null_conflation [OF a b c d, of "JStr ''k''"]
    by simp
qed

section \<open>The claim about the constructors\<close>

text \<open>
  C8 (amended). Neither constructor checks its arguments. For every value, the
  non-positive ones included, construction returns an instance that holds the value as
  given and an empty store, and no later call reports it either: a cache with a negative
  TTL returns \<open>null\<close> for a key read at the instant it was set, and a limiter whose
  \<open>maxRequests\<close> is not positive rejects every call and never changes.
\<close>

theorem constructor_accepts_every_value:
  "SimpleCache_constructor (Some t) = \<lparr>cache = Map.empty, ttl = t\<rparr>
   \<and> RateLimiter_constructor m w = \<lparr>maxRequests = m, windowMs = w, requests = Map.empty\<rparr>
   \<and> (t < 0 \<longrightarrow>
        cache_get (snd (cache_set (SimpleCache_constructor (Some t)) k v now)) k now
          = (JNull, SimpleCache_constructor (Some t)))
   \<and> (m \<le> 0 \<longrightarrow>
        isAllowed_calls (RateLimiter_constructor m w) cs
          = (replicate (length cs) False, RateLimiter_constructor m w))"
proof (intro conjI impI)
  show "SimpleCache_constructor (Some t) = \<lparr>cache = Map.empty, ttl = t\<rparr>"
    by (simp add: SimpleCache_constructor_def)
  show "RateLimiter_constructor m w = \<lparr>maxRequests = m, windowMs = w, requests = Map.empty\<rparr>"
    by (simp add: RateLimiter_constructor_def)
next
  assume "t < 0"
  then show "cache_get (snd (cache_set (SimpleCache_constructor (Some t)) k v now)) k now
          = (JNull, SimpleCache_constructor (Some t))"
    by (simp add: SimpleCache_constructor_def cache_set_def cache_get_def)
next
  assume "m \<le> 0"
  then show "isAllowed_calls (RateLimiter_constructor m w) cs
          = (replicate (length cs) False, RateLimiter_constructor m w)"
    by (intro isAllowed_calls_nonpositive_limit) (simp add: RateLimiter_constructor_def)
qed

text \<open>A cache with a TTL of -1 and a limiter with a limit of 0.\<close>

theorem constructor_accepts_every_value_witness:
  "(- 1 :: int) < 0 \<and> (0::int) \<le> 0
   \<and> fst (cache_get (snd (cache_set (SimpleCache_constructor (Some (- 1))) (JStr ''k'') (JNum 7) 5)) (JStr ''k'') 5)
       = JNull
   \<and> fst (isAllowed_calls (RateLimiter_constructor 0 1000) [(JStr ''x'', 1), (JStr ''x'', 2000)])
       = [False, False]"
proof -
  have a: "(- 1 :: int) < 0" and b: "(0::int) \<le> 0" by simp_all
  have "cache_get (snd (cache_set (SimpleCache_constructor (Some (- 1))) (JStr ''k'') (JNum 7) 5)) (JStr ''k'') 5
          = (JNull, SimpleCache_constructor (Some (- 1)))"
    and "isAllowed_calls (RateLimiter_constructor 0 1000) [(JStr ''x'', 1), (JStr ''x'', 2000)]
          = (replicate (length [(JStr ''x'', 1::int), (JStr ''x'', 2000)]) False, RateLimiter_constructor 0 1000)"
    using a b
      constructor_accepts_every_value
        [of "- 1" 0 1000 "JStr ''k''" "JNum 7" 5 "[(JStr ''x'', 1), (JStr ''x'', 2000)]"]
    by blast+
  then show ?thesis
    using a b by (simp del: isAllowed_calls.simps)
qed

text \<open>
  C8 as stated fails: construction with a TTL of 0 or -5, with \<open>maxRequests = 0\<close> and
  with \<open>windowMs = -1\<close> returns an instance, and the instances work: the cache with TTL
  0 returns the value just set, the limiter with the window -1 admits a call.
\<close>

theorem constructor_nonpositive_counterexample:
  "SimpleCache_constructor (Some 0) = \<lparr>cache = Map.empty, ttl = 0\<rparr>
   \<and> SimpleCache_constructor (Some (- 5)) = \<lparr>cache = Map.empty, ttl = - 5\<rparr>
   \<and> RateLimiter_constructor 0 1000 = \<lparr>maxRequests = 0, windowMs = 1000, requests = Map.empty\<rparr>
   \<and> RateLimiter_constructor 3 (- 1) = \<lparr>maxRequests = 3, windowMs = - 1, requests = Map.empty\<rparr>
   \<and> fst (cache_get (snd (cache_set (SimpleCache_constructor (Some 0)) (JStr ''k'') (JNum 7) 5)) (JStr ''k'') 5)
       = JNum 7
   \<and> fst (isAllowed (RateLimiter_constructor 3 (- 1)) (JStr ''x'') 5) = True"
  by (simp add: isAllowed_def recentRequests_def userRequests_def RateLimiter_constructor_def
      SimpleCache_constructor_def cache_set_def cache_get_def)

end
